theory Spec2Isabelle
  imports Main "HOL-Library.Word" "HOL-Library.List_Lexorder" "HOL-Library.Sublist"
begin

unbundle bit_operations_syntax

section \<open>Strings and bytes\<close>

text \<open>
  A Go string is a sequence of bytes, compared bytewise (unsigned) in lexicographic order;
  the object store sorts its keys the same way.
\<close>

type_synonym byte = "8 word"
type_synonym gostring = "byte list"

section \<open>The descending id encoding (first revision: xorCursor)\<close>

text \<open>
  \<^verbatim>\<open>
  func xorCursor(oid string) string {
      cp := []byte(oid)
      for i := range cp[:] { cp[i] ^= 0xFF }
      return string(cp[:])
  }
  \<close>
\<close>

definition xorCursor :: "gostring \<Rightarrow> gostring" where
  "xorCursor oid = map (\<lambda>b. b XOR 0xFF) oid"

section \<open>Time, calls and filters\<close>

text \<open>
  An instant of Go's \<open>time.Time\<close>: \<open>Unix\<close> is what \<open>t.Unix()\<close> returns (seconds since
  1970, negative before), \<open>Nanosecond\<close> what \<open>t.Nanosecond()\<close> returns (0 to 999999999).
  The zero value of \<open>time.Time\<close> is January 1 of year 1, 00:00:00 UTC, which is
  62135596800 seconds before 1970; \<open>IsZero\<close> tests for that instant and \<open>Before\<close>
  compares instants.
\<close>

record gotime =
  Unix :: int
  Nanosecond :: nat

definition zeroTime :: gotime where
  "zeroTime = \<lparr>Unix = - 62135596800, Nanosecond = 0\<rparr>"

definition IsZero :: "gotime \<Rightarrow> bool" where
  "IsZero t \<longleftrightarrow> Unix t = - 62135596800 \<and> Nanosecond t = 0"

definition Before :: "gotime \<Rightarrow> gotime \<Rightarrow> bool" where
  "Before t u \<longleftrightarrow> Unix t < Unix u \<or> (Unix t = Unix u \<and> Nanosecond t < Nanosecond u)"

text \<open>
  The fields of \<open>models.Call\<close> and \<open>models.CallFilter\<close> that the store reads. Both
  structs are declared outside the store's file; \<open>Payload\<close> stands for the rest of a
  call, which the store never looks at.
\<close>

record Call =
  ID :: gostring
  AppID :: gostring
  Path :: gostring
  CreatedAt :: gotime
  Payload :: gostring

record CallFilter =
  AppID :: gostring
  Path :: gostring
  FromTime :: gotime
  ToTime :: gotime
  Cursor :: gostring
  PerPage :: int

section \<open>What the store takes from other packages\<close>

text \<open>
  The methods \<open>String\<close> and \<open>MarshalDescending\<close> of \<open>id.Id\<close> (package api/id) and the
  functions \<open>json.Marshal\<close> and \<open>json.Unmarshal\<close> for \<open>models.Call\<close> are not part of the
  store's file. The model takes them as parameters: an \<open>id.Id\<close> is passed as its bytes,
  and a failing \<open>json\<close> call is \<open>None\<close>.
\<close>

record extern =
  Id_String :: "gostring \<Rightarrow> gostring"
  Id_MarshalDescending :: "gostring \<Rightarrow> gostring"
  json_Marshal :: "Call \<Rightarrow> gostring option"
  json_Unmarshal :: "gostring \<Rightarrow> Call option"

text \<open>
  The length of the array type \<open>id.Id\<close>. GetCalls notes that it relies on call ids
  being "<= 16 byte".
\<close>

definition IdSize :: nat where
  "IdSize = 16"

section \<open>base64.RawURLEncoding\<close>

text \<open>
  The URL-safe alphabet \<open>A-Z a-z 0-9 - _\<close>, no padding. Three bytes give four
  characters; a rest of one byte gives two, a rest of two bytes gives three.
\<close>

definition encodeURL :: gostring where
  "encodeURL =
    [0x41, 0x42, 0x43, 0x44, 0x45, 0x46, 0x47, 0x48, 0x49, 0x4A, 0x4B, 0x4C, 0x4D,
     0x4E, 0x4F, 0x50, 0x51, 0x52, 0x53, 0x54, 0x55, 0x56, 0x57, 0x58, 0x59, 0x5A,
     0x61, 0x62, 0x63, 0x64, 0x65, 0x66, 0x67, 0x68, 0x69, 0x6A, 0x6B, 0x6C, 0x6D,
     0x6E, 0x6F, 0x70, 0x71, 0x72, 0x73, 0x74, 0x75, 0x76, 0x77, 0x78, 0x79, 0x7A,
     0x30, 0x31, 0x32, 0x33, 0x34, 0x35, 0x36, 0x37, 0x38, 0x39, 0x2D, 0x5F]"

definition sextet :: "nat \<Rightarrow> nat \<Rightarrow> byte" where
  "sextet val shift = encodeURL ! ((val div 2 ^ shift) mod 64)"

fun EncodeToString :: "gostring \<Rightarrow> gostring" where
  "EncodeToString (a # b # c # src) =
     (let val = unat a * 65536 + unat b * 256 + unat c
      in [sextet val 18, sextet val 12, sextet val 6, sextet val 0] @ EncodeToString src)"
| "EncodeToString [a, b] =
     (let val = unat a * 65536 + unat b * 256
      in [sextet val 18, sextet val 12, sextet val 6])"
| "EncodeToString [a] =
     (let val = unat a * 65536
      in [sextet val 18, sextet val 12])"
| "EncodeToString [] = []"

section \<open>Keys (second revision)\<close>

definition slash :: byte where
  "slash = 0x2F"

definition callKeyPrefix :: gostring where
  "callKeyPrefix = [0x63, slash]"

definition callMarkerPrefix :: gostring where
  "callMarkerPrefix = [0x6D, slash]"

text \<open>
  \<^verbatim>\<open>
  func flipCursor(oid string) string {
      if oid == "" { return "" }
      var rid id.Id
      copy(rid[:], oid)
      return rid.MarshalDescending()[:len(oid)]
  }
  \<close>
  \<open>copy\<close> fills the zeroed array with as many bytes of \<open>oid\<close> as fit. Slicing the
  marshalled string beyond its length panics: that is \<open>None\<close>.
\<close>

definition flipCursor :: "extern \<Rightarrow> gostring \<Rightarrow> gostring option" where
  "flipCursor X oid =
     (if oid = [] then Some []
      else
        let rid = take IdSize oid @ replicate (IdSize - length oid) 0;
            d = Id_MarshalDescending X rid
        in if length oid \<le> length d then Some (take (length oid) d) else None)"

definition callKeyFlipped :: "gostring \<Rightarrow> gostring \<Rightarrow> gostring" where
  "callKeyFlipped app fid = callKeyPrefix @ app @ [slash] @ fid"

definition callKey :: "extern \<Rightarrow> gostring \<Rightarrow> gostring \<Rightarrow> gostring option" where
  "callKey X app cid =
     (case flipCursor X cid of
        None \<Rightarrow> None
      | Some fid \<Rightarrow> Some (callKeyFlipped app fid))"

definition callMarkerKey :: "extern \<Rightarrow> gostring \<Rightarrow> gostring \<Rightarrow> gostring \<Rightarrow> gostring option" where
  "callMarkerKey X app path cid =
     (case flipCursor X cid of
        None \<Rightarrow> None
      | Some fid \<Rightarrow>
          Some (callMarkerPrefix @ app @ [slash] @ EncodeToString path @ [slash] @ fid))"

section \<open>The object store behind the client\<close>

text \<open>
  The S3 service is outside the repository. It is modelled by the contract the store
  relies on: \<open>put\<close> writes an object under a key, \<open>get\<close> reads it or reports that the
  key does not exist, and \<open>list\<close> returns, in ascending bytewise order, at most
  \<open>MaxKeys\<close> keys that start with \<open>Prefix\<close> and are strictly greater than \<open>Marker\<close>
  (an empty marker means none). Every request is recorded in \<open>requests\<close>, oldest first.
  Any request may fail: \<open>faults\<close> is the script of outcomes of the requests to come
  (\<open>True\<close> is a failure; past the end of the script nothing fails).
\<close>

datatype request =
    PutObject gostring gostring
  | GetObject gostring
  | ListObjects gostring gostring int

datatype aws_error = NoSuchKey | ServiceFailure

record bucket =
  objects :: "(gostring \<times> gostring) list"
  requests :: "request list"
  faults :: "bool list"

definition failing :: "bucket \<Rightarrow> bool" where
  "failing b = (case faults b of [] \<Rightarrow> False | flt # _ \<Rightarrow> flt)"

definition tick :: "bucket \<Rightarrow> request \<Rightarrow> bucket" where
  "tick b req = b\<lparr>requests := requests b @ [req], faults := tl (faults b)\<rparr>"

definition put_object :: "gostring \<Rightarrow> gostring \<Rightarrow> (gostring \<times> gostring) list
    \<Rightarrow> (gostring \<times> gostring) list" where
  "put_object key body objs = (key, body) # filter (\<lambda>kv. fst kv \<noteq> key) objs"

definition Upload :: "gostring \<Rightarrow> gostring \<Rightarrow> bucket \<Rightarrow> aws_error option \<times> bucket" where
  "Upload key body b =
     (if failing b then (Some ServiceFailure, tick b (PutObject key body))
      else (None, (tick b (PutObject key body))\<lparr>objects := put_object key body (objects b)\<rparr>))"

definition Download :: "gostring \<Rightarrow> bucket \<Rightarrow> (aws_error + gostring) \<times> bucket" where
  "Download key b =
     (if failing b then (Inl ServiceFailure, tick b (GetObject key))
      else
        (case map_of (objects b) key of
           None \<Rightarrow> (Inl NoSuchKey, tick b (GetObject key))
         | Some body \<Rightarrow> (Inr body, tick b (GetObject key))))"

definition listed :: "gostring \<Rightarrow> gostring \<Rightarrow> (gostring \<times> gostring) list \<Rightarrow> gostring list" where
  "listed pre marker objs =
     sort (filter (\<lambda>k. prefix pre k \<and> (marker = [] \<or> marker < k)) (remdups (map fst objs)))"

definition List_Objects :: "gostring \<Rightarrow> gostring \<Rightarrow> int \<Rightarrow> bucket
    \<Rightarrow> (aws_error + gostring list) \<times> bucket" where
  "List_Objects pre marker maxKeys b =
     (if failing b then (Inl ServiceFailure, tick b (ListObjects pre marker maxKeys))
      else (Inr (take (nat maxKeys) (listed pre marker (objects b))),
            tick b (ListObjects pre marker maxKeys)))"

section \<open>Results\<close>

text \<open>
  The errors the store returns, one constructor per error the source builds. A function
  either returns or panics; the bucket is returned as the requests left it.
\<close>

datatype error =
    ErrMarshal
  | ErrInsertCall aws_error
  | ErrMarkerKey aws_error
  | ErrCallNotFound
  | ErrReadLog aws_error
  | ErrUnmarshal
  | ErrListAcrossApps
  | ErrListLogs aws_error
  | ErrInvalidKeyInMarkers gostring
  | ErrInvalidKeyInCalls gostring

datatype 'a outcome = Return 'a | Panic

section \<open>InsertCall\<close>

text \<open>
  Marshal the call, upload it under the call key, then upload an empty object under the
  marker key. Each failure returns at once.
\<close>

definition InsertCall :: "extern \<Rightarrow> Call \<Rightarrow> bucket \<Rightarrow> error option outcome \<times> bucket" where
  "InsertCall X call b =
     (case json_Marshal X call of
        None \<Rightarrow> (Return (Some ErrMarshal), b)
      | Some byts \<Rightarrow>
          (case callKey X (Call.AppID call) (ID call) of
             None \<Rightarrow> (Panic, b)
           | Some objectName \<Rightarrow>
               (case Upload objectName byts b of
                  (Some err, b1) \<Rightarrow> (Return (Some (ErrInsertCall err)), b1)
                | (None, b1) \<Rightarrow>
                    (case callMarkerKey X (Call.AppID call) (Call.Path call) (ID call) of
                       None \<Rightarrow> (Panic, b1)
                     | Some markerName \<Rightarrow>
                         (case Upload markerName [] b1 of
                            (Some err, b2) \<Rightarrow> (Return (Some (ErrMarkerKey err)), b2)
                          | (None, b2) \<Rightarrow> (Return None, b2))))))"

section \<open>getCallByKey\<close>

definition getCallByKey :: "extern \<Rightarrow> gostring \<Rightarrow> bucket \<Rightarrow> (error + Call) \<times> bucket" where
  "getCallByKey X key b =
     (case Download key b of
        (Inl NoSuchKey, b1) \<Rightarrow> (Inl ErrCallNotFound, b1)
      | (Inl ServiceFailure, b1) \<Rightarrow> (Inl (ErrReadLog ServiceFailure), b1)
      | (Inr body, b1) \<Rightarrow>
          (case json_Unmarshal X body of
             None \<Rightarrow> (Inl ErrUnmarshal, b1)
           | Some call \<Rightarrow> (Inr call, b1)))"

section \<open>GetCalls\<close>

text \<open>\<open>strings.Split\<close> with a separator of one byte: one field more than separators.\<close>

fun Split :: "gostring \<Rightarrow> byte \<Rightarrow> gostring list" where
  "Split [] sep = [[]]"
| "Split (c # cs) sep =
     (if c = sep then [] # Split cs sep
      else (case Split cs sep of
              [] \<Rightarrow> [[c]]
            | fld # flds \<Rightarrow> (c # fld) # flds))"

text \<open>
  The head of the loop body: the key is split at \<open>/\<close>; a marker key must have four
  fields, a call key three. For a call key the fields are read before their number is
  checked, so a key with fewer than three fields panics (index out of range).
\<close>

datatype decoded = Decoded gostring gostring | InvalidKey error | IndexPanic

definition decodeKey :: "CallFilter \<Rightarrow> gostring \<Rightarrow> decoded" where
  "decodeKey f key =
     (let fields = Split key slash in
      if Path f \<noteq> [] then
        (if length fields \<noteq> 4 then InvalidKey (ErrInvalidKeyInMarkers key)
         else Decoded (fields ! 1) (fields ! 3))
      else
        (if length fields < 3 then IndexPanic
         else if length fields \<noteq> 3 then InvalidKey (ErrInvalidKeyInCalls key)
         else Decoded (fields ! 1) (fields ! 2)))"

text \<open>
  The loop over the listed keys, with the calls accumulated so far. A key that does not
  decode returns the calls and the error; a call that cannot be fetched is skipped; a
  call before \<open>FromTime\<close> is skipped; a call at or after \<open>ToTime\<close> ends the loop.
\<close>

fun GetCalls_loop :: "extern \<Rightarrow> CallFilter \<Rightarrow> gostring list \<Rightarrow> Call list \<Rightarrow> bucket
    \<Rightarrow> (Call list \<times> error option) outcome \<times> bucket" where
  "GetCalls_loop X f [] calls b = (Return (calls, None), b)"
| "GetCalls_loop X f (key # rest) calls b =
     (case decodeKey f key of
        IndexPanic \<Rightarrow> (Panic, b)
      | InvalidKey err \<Rightarrow> (Return (calls, Some err), b)
      | Decoded app fid \<Rightarrow>
          (case getCallByKey X (callKeyFlipped app fid) b of
             (Inl err, b1) \<Rightarrow> GetCalls_loop X f rest calls b1
           | (Inr call, b1) \<Rightarrow>
               if \<not> IsZero (FromTime f) \<and> Before (CreatedAt call) (FromTime f)
               then GetCalls_loop X f rest calls b1
               else if \<not> IsZero (ToTime f) \<and> \<not> Before (CreatedAt call) (ToTime f)
               then (Return (calls, None), b1)
               else GetCalls_loop X f rest (calls @ [call]) b1))"

text \<open>
  The partial id of \<open>FromTime\<close>: its milliseconds since 1970 as an unsigned 64-bit
  number, the low 48 bits of which fill the first six bytes of a zeroed \<open>id.Id\<close>, and
  the first ten characters of the string form of that id. Without \<open>FromTime\<close> it is
  empty. Slicing a string form shorter than ten characters panics.
\<close>

definition fromTimeMs :: "gotime \<Rightarrow> 64 word" where
  "fromTimeMs t = word_of_int (Unix t * 1000) + word_of_nat (Nanosecond t div 1000000)"

definition fromTimeBuf :: "64 word \<Rightarrow> gostring" where
  "fromTimeBuf ms =
     [ucast (drop_bit 40 ms), ucast (drop_bit 32 ms), ucast (drop_bit 24 ms),
      ucast (drop_bit 16 ms), ucast (drop_bit 8 ms), ucast ms] @ replicate (IdSize - 6) 0"

definition GetCalls_mid :: "extern \<Rightarrow> CallFilter \<Rightarrow> gostring option" where
  "GetCalls_mid X f =
     (if \<not> IsZero (FromTime f) then
        (let s = Id_String X (fromTimeBuf (fromTimeMs (FromTime f)))
         in if 10 \<le> length s then Some (take 10 s) else None)
      else Some [])"

text \<open>The prefix to list under: call keys, or marker keys when a path is given.\<close>

definition GetCalls_prefix :: "extern \<Rightarrow> CallFilter \<Rightarrow> gostring \<Rightarrow> gostring option" where
  "GetCalls_prefix X f mid =
     (case callKey X (AppID f) mid of
        None \<Rightarrow> None
      | Some pre \<Rightarrow> if Path f \<noteq> [] then callMarkerKey X (AppID f) (Path f) mid else Some pre)"

text \<open>The marker to list after: the key of the cursor, empty without a cursor.\<close>

definition GetCalls_marker :: "extern \<Rightarrow> CallFilter \<Rightarrow> gostring option" where
  "GetCalls_marker X f =
     (if Cursor f \<noteq> [] then
        (case callKey X (AppID f) (Cursor f) of
           None \<Rightarrow> None
         | Some marker \<Rightarrow>
             if Path f \<noteq> [] then callMarkerKey X (AppID f) (Path f) (Cursor f) else Some marker)
      else Some [])"

definition GetCalls :: "extern \<Rightarrow> CallFilter \<Rightarrow> bucket
    \<Rightarrow> (Call list \<times> error option) outcome \<times> bucket" where
  "GetCalls X f b =
     (if AppID f = [] then (Return ([], Some ErrListAcrossApps), b)
      else
        (case GetCalls_mid X f of
           None \<Rightarrow> (Panic, b)
         | Some mid \<Rightarrow>
             (case GetCalls_prefix X f mid of
                None \<Rightarrow> (Panic, b)
              | Some pre \<Rightarrow>
                  (case GetCalls_marker X f of
                     None \<Rightarrow> (Panic, b)
                   | Some marker \<Rightarrow>
                       (case List_Objects pre marker (PerPage f) b of
                          (Inl err, b1) \<Rightarrow> (Return ([], Some (ErrListLogs err)), b1)
                        | (Inr contents, b1) \<Rightarrow> GetCalls_loop X f contents [] b1)))))"

section \<open>What a listed key shows\<close>

text \<open>The error that the loop returns for a key with the wrong number of fields.\<close>

definition invalidKey :: "CallFilter \<Rightarrow> gostring \<Rightarrow> error" where
  "invalidKey f key =
     (if Path f \<noteq> [] then ErrInvalidKeyInMarkers key else ErrInvalidKeyInCalls key)"

text \<open>
  What \<open>getCallByKey\<close> returns when the request itself does not fail, as a function of
  the objects in the bucket.
\<close>

definition fetch :: "extern \<Rightarrow> (gostring \<times> gostring) list \<Rightarrow> gostring \<Rightarrow> error + Call" where
  "fetch X objs key =
     (case map_of objs key of
        None \<Rightarrow> Inl ErrCallNotFound
      | Some body \<Rightarrow>
          (case json_Unmarshal X body of
             None \<Rightarrow> Inl ErrUnmarshal
           | Some call \<Rightarrow> Inr call))"

text \<open>
  The call that one pass of the loop body appends for a key, if any: the key decodes,
  its call is fetched and is not before \<open>FromTime\<close>.
\<close>

definition visible :: "extern \<Rightarrow> CallFilter \<Rightarrow> (gostring \<times> gostring) list \<Rightarrow> gostring
    \<Rightarrow> Call option" where
  "visible X f objs key =
     (case decodeKey f key of
        Decoded app fid \<Rightarrow>
          (case fetch X objs (callKeyFlipped app fid) of
             Inl err \<Rightarrow> None
           | Inr call \<Rightarrow>
               if \<not> IsZero (FromTime f) \<and> Before (CreatedAt call) (FromTime f) then None
               else Some call)
      | InvalidKey err \<Rightarrow> None
      | IndexPanic \<Rightarrow> None)"

section \<open>Paging through a listing\<close>


section \<open>A sample of the outside for evaluation\<close>

text \<open>
  Modelled from the spec: the methods \<open>String\<close> and \<open>MarshalDescending\<close> of \<open>id.Id\<close>
  (package api/id) are missing from the sources at hand. The theorems below hold for
  any \<open>extern\<close>; to evaluate the store on concrete inputs one instance is fixed here.
  Its \<open>MarshalDescending\<close> is the bytewise complement, which the design gives as the
  order-reversing transform of ids and which \<open>xorCursor\<close> implements. Its \<open>String\<close>
  writes the 128 bits of an id as 26 characters of base 32 over the alphabet
  \<open>0-9 A-Z\<close> without \<open>I L O U\<close>, so that the first ten characters carry the 48 bits
  of the time (the comment in \<open>flipCursor\<close> shows such an id,
  \<open>01C860Z3M9A7WHJ00000000000\<close>, and GetCalls says "timestamp is first 10 bytes of
  string encoded"). Its \<open>json\<close> writes the three strings of a call behind their
  lengths, then the seconds and the nanoseconds of \<open>CreatedAt\<close> in eight bytes each,
  then the payload.
\<close>

definition crockford :: gostring where
  "crockford =
    [0x30, 0x31, 0x32, 0x33, 0x34, 0x35, 0x36, 0x37, 0x38, 0x39, 0x41, 0x42, 0x43, 0x44, 0x45,
     0x46, 0x47, 0x48, 0x4A, 0x4B, 0x4D, 0x4E, 0x50, 0x51, 0x52, 0x53, 0x54, 0x56, 0x57, 0x58,
     0x59, 0x5A]"

definition be_nat :: "gostring \<Rightarrow> nat" where
  "be_nat bs = foldl (\<lambda>n b. n * 256 + unat b) 0 bs"

definition base32_String :: "gostring \<Rightarrow> gostring" where
  "base32_String rid = map (\<lambda>i. crockford ! ((be_nat rid div 32 ^ (25 - i)) mod 32)) [0..<26]"

definition put_field :: "gostring \<Rightarrow> gostring" where
  "put_field s = word_of_nat (length s) # s"

definition get_field :: "gostring \<Rightarrow> (gostring \<times> gostring) option" where
  "get_field bs =
     (case bs of
        [] \<Rightarrow> None
      | n # r \<Rightarrow> if unat n \<le> length r then Some (take (unat n) r, drop (unat n) r) else None)"

definition put_be64 :: "64 word \<Rightarrow> gostring" where
  "put_be64 w = map (\<lambda>i. ucast (drop_bit (8 * i) w)) [7, 6, 5, 4, 3, 2, 1, 0]"

definition get_be64 :: "gostring \<Rightarrow> 64 word" where
  "get_be64 bs = foldl (\<lambda>w b. w * 256 + ucast b) 0 bs"

definition sample_Marshal :: "Call \<Rightarrow> gostring option" where
  "sample_Marshal c =
     Some (put_field (ID c) @ put_field (Call.AppID c) @ put_field (Call.Path c)
       @ put_be64 (word_of_int (Unix (CreatedAt c)))
       @ put_be64 (word_of_nat (Nanosecond (CreatedAt c))) @ Payload c)"

definition sample_Unmarshal :: "gostring \<Rightarrow> Call option" where
  "sample_Unmarshal bs =
     (case get_field bs of
        None \<Rightarrow> None
      | Some (i, r1) \<Rightarrow>
          (case get_field r1 of
             None \<Rightarrow> None
           | Some (a, r2) \<Rightarrow>
               (case get_field r2 of
                  None \<Rightarrow> None
                | Some (p, r3) \<Rightarrow>
                    if length r3 < 16 then None
                    else Some \<lparr>ID = i, Call.AppID = a, Call.Path = p,
                      CreatedAt = \<lparr>Unix = sint (get_be64 (take 8 r3)),
                                   Nanosecond = unat (get_be64 (take 8 (drop 8 r3)))\<rparr>,
                      Payload = drop 16 r3\<rparr>)))"

definition sample :: extern where
  "sample = \<lparr>Id_String = base32_String, Id_MarshalDescending = xorCursor,
     json_Marshal = sample_Marshal, json_Unmarshal = sample_Unmarshal\<rparr>"

definition empty_bucket :: bucket where
  "empty_bucket = \<lparr>objects = [], requests = [], faults = []\<rparr>"

text \<open>
  Two calls of the app \<open>a\<close> on the path \<open>/f\<close>, with the ids \<open>00000001\<close> and
  \<open>00000002\<close>; \<open>call2\<close> is the later one. Next to each: its id complemented, its call
  key, its marker key (\<open>L2Y\<close> is the path in base 64) and its serialised form.
\<close>

definition call1 :: Call where
  "call1 = \<lparr>ID = [0x30, 0x30, 0x30, 0x30, 0x30, 0x30, 0x30, 0x31], Call.AppID = [0x61],
     Call.Path = [0x2F, 0x66], CreatedAt = \<lparr>Unix = 100, Nanosecond = 0\<rparr>, Payload = []\<rparr>"

definition call2 :: Call where
  "call2 = \<lparr>ID = [0x30, 0x30, 0x30, 0x30, 0x30, 0x30, 0x30, 0x32], Call.AppID = [0x61],
     Call.Path = [0x2F, 0x66], CreatedAt = \<lparr>Unix = 200, Nanosecond = 0\<rparr>, Payload = []\<rparr>"

definition fid1 :: gostring where
  "fid1 = [0xCF, 0xCF, 0xCF, 0xCF, 0xCF, 0xCF, 0xCF, 0xCE]"

definition fid2 :: gostring where
  "fid2 = [0xCF, 0xCF, 0xCF, 0xCF, 0xCF, 0xCF, 0xCF, 0xCD]"

definition key1 :: gostring where
  "key1 = [0x63, 0x2F, 0x61, 0x2F, 0xCF, 0xCF, 0xCF, 0xCF, 0xCF, 0xCF, 0xCF, 0xCE]"

definition key2 :: gostring where
  "key2 = [0x63, 0x2F, 0x61, 0x2F, 0xCF, 0xCF, 0xCF, 0xCF, 0xCF, 0xCF, 0xCF, 0xCD]"

definition marker1 :: gostring where
  "marker1 = [0x6D, 0x2F, 0x61, 0x2F, 0x4C, 0x32, 0x59, 0x2F,
     0xCF, 0xCF, 0xCF, 0xCF, 0xCF, 0xCF, 0xCF, 0xCE]"

definition marker2 :: gostring where
  "marker2 = [0x6D, 0x2F, 0x61, 0x2F, 0x4C, 0x32, 0x59, 0x2F,
     0xCF, 0xCF, 0xCF, 0xCF, 0xCF, 0xCF, 0xCF, 0xCD]"

definition body1 :: gostring where
  "body1 = [8, 0x30, 0x30, 0x30, 0x30, 0x30, 0x30, 0x30, 0x31, 1, 0x61, 2, 0x2F, 0x66,
     0, 0, 0, 0, 0, 0, 0, 100, 0, 0, 0, 0, 0, 0, 0, 0]"

definition body2 :: gostring where
  "body2 = [8, 0x30, 0x30, 0x30, 0x30, 0x30, 0x30, 0x30, 0x32, 1, 0x61, 2, 0x2F, 0x66,
     0, 0, 0, 0, 0, 0, 0, 200, 0, 0, 0, 0, 0, 0, 0, 0]"

text \<open>The filter of the app \<open>a\<close> with nothing else set, ten calls to a page.\<close>

definition appFilter :: CallFilter where
  "appFilter = \<lparr>AppID = [0x61], Path = [], FromTime = zeroTime, ToTime = zeroTime,
     Cursor = [], PerPage = 10\<rparr>"

text \<open>The same filter on the path \<open>/f\<close>, and with one call to a page.\<close>

definition pathFilter :: CallFilter where
  "pathFilter = appFilter\<lparr>Path := [0x2F, 0x66]\<rparr>"


text \<open>The bucket after \<open>call1\<close> and \<open>call2\<close> have been inserted into the empty one.\<close>

definition bucket12 :: bucket where
  "bucket12 = snd (InsertCall sample call2 (snd (InsertCall sample call1 empty_bucket)))"


text \<open>
  The call key of a call \<open>00000003\<close> of the app \<open>a\<close> that is not in the bucket (any
  more), and the complement of its id.
\<close>

definition fid_gone :: gostring where
  "fid_gone = [0xCF, 0xCF, 0xCF, 0xCF, 0xCF, 0xCF, 0xCF, 0xCC]"

definition gone_key :: gostring where
  "gone_key = [0x63, 0x2F, 0x61, 0x2F, 0xCF, 0xCF, 0xCF, 0xCF, 0xCF, 0xCF, 0xCF, 0xCC]"

text \<open>
  A key \<open>c/a/\<close>\<dots>\<open>/\<close>\<dots> with four fields under the prefix of the call keys of the
  app \<open>a\<close>, and \<open>bucket12\<close> with an object under that key.
\<close>

definition foreign_key :: gostring where
  "foreign_key = [0x63, 0x2F, 0x61, 0x2F, 0xFF, 0x2F, 0xFF]"

definition bucket_foreign :: bucket where
  "bucket_foreign = bucket12\<lparr>objects := (foreign_key, []) # objects bucket12\<rparr>"

text \<open>A filter with a time bound: calls before second 150.\<close>

definition stopFilter :: CallFilter where
  "stopFilter = appFilter\<lparr>ToTime := \<lparr>Unix = 150, Nanosecond = 0\<rparr>\<rparr>"

text \<open>
  The prefix of the marker keys of the app \<open>a\<close> on the path \<open>/f\<close>; the marker key of
  the call \<open>00000003\<close> that is not in the bucket; and \<open>bucket12\<close> with that marker.
\<close>

definition marker_pre :: gostring where
  "marker_pre = [0x6D, 0x2F, 0x61, 0x2F, 0x4C, 0x32, 0x59, 0x2F]"

definition marker_gone :: gostring where
  "marker_gone = [0x6D, 0x2F, 0x61, 0x2F, 0x4C, 0x32, 0x59, 0x2F,
     0xCF, 0xCF, 0xCF, 0xCF, 0xCF, 0xCF, 0xCF, 0xCC]"

definition bucket_gone :: bucket where
  "bucket_gone = bucket12\<lparr>objects := (marker_gone, []) # objects bucket12\<rparr>"

text \<open>
  The instant 2018-03-02 14:13:20 UTC, 1520000000 seconds after 1970. An id made at
  that millisecond starts with \<open>01C7KGYR00\<close>, one made a millisecond later with
  \<open>01C7KGYR01\<close>. \<open>fromFilter\<close> asks for the calls of the app \<open>a\<close> from that instant on.
\<close>

definition t0 :: gotime where
  "t0 = \<lparr>Unix = 1520000000, Nanosecond = 0\<rparr>"

definition mid0 :: gostring where
  "mid0 = [0x30, 0x31, 0x43, 0x37, 0x4B, 0x47, 0x59, 0x52, 0x30, 0x30]"

definition fmid0 :: gostring where
  "fmid0 = [0xCF, 0xCE, 0xBC, 0xC8, 0xB4, 0xB8, 0xA6, 0xAD, 0xCF, 0xCF]"

definition fromFilter :: CallFilter where
  "fromFilter = appFilter\<lparr>FromTime := t0\<rparr>"

text \<open>
  \<open>call3\<close> is created one millisecond after \<open>t0\<close> and its id \<open>01C7KGYR01000000\<close>
  carries that millisecond. \<open>bucket3\<close> holds it alone.
\<close>

definition call3 :: Call where
  "call3 = \<lparr>ID = [0x30, 0x31, 0x43, 0x37, 0x4B, 0x47, 0x59, 0x52, 0x30, 0x31,
       0x30, 0x30, 0x30, 0x30, 0x30, 0x30],
     Call.AppID = [0x61], Call.Path = [0x2F, 0x66],
     CreatedAt = \<lparr>Unix = 1520000000, Nanosecond = 1000000\<rparr>, Payload = []\<rparr>"

definition fid3 :: gostring where
  "fid3 = [0xCF, 0xCE, 0xBC, 0xC8, 0xB4, 0xB8, 0xA6, 0xAD, 0xCF, 0xCE,
     0xCF, 0xCF, 0xCF, 0xCF, 0xCF, 0xCF]"

definition key3 :: gostring where
  "key3 = [0x63, 0x2F, 0x61, 0x2F] @ fid3"

definition marker3 :: gostring where
  "marker3 = [0x6D, 0x2F, 0x61, 0x2F, 0x4C, 0x32, 0x59, 0x2F] @ fid3"

definition body3 :: gostring where
  "body3 = [16, 0x30, 0x31, 0x43, 0x37, 0x4B, 0x47, 0x59, 0x52, 0x30, 0x31,
       0x30, 0x30, 0x30, 0x30, 0x30, 0x30, 1, 0x61, 2, 0x2F, 0x66,
     0, 0, 0, 0, 0x5A, 0x99, 0x5C, 0, 0, 0, 0, 0, 0, 0x0F, 0x42, 0x40]"

definition bucket3 :: bucket where
  "bucket3 = snd (InsertCall sample call3 empty_bucket)"

text \<open>
  \<open>callA\<close> and \<open>callB\<close> have ids of the millisecond of \<open>t0\<close>, \<open>01C7KGYR00000002\<close> and
  \<open>01C7KGYR00000001\<close>. \<open>callA\<close> was created one millisecond before \<open>t0\<close>, \<open>callB\<close> at
  \<open>t0\<close>. \<open>bucketAB\<close> holds both.
\<close>

definition callA :: Call where
  "callA = \<lparr>ID = [0x30, 0x31, 0x43, 0x37, 0x4B, 0x47, 0x59, 0x52, 0x30, 0x30,
       0x30, 0x30, 0x30, 0x30, 0x30, 0x32],
     Call.AppID = [0x61], Call.Path = [0x2F, 0x66],
     CreatedAt = \<lparr>Unix = 1519999999, Nanosecond = 999000000\<rparr>, Payload = []\<rparr>"

definition callB :: Call where
  "callB = \<lparr>ID = [0x30, 0x31, 0x43, 0x37, 0x4B, 0x47, 0x59, 0x52, 0x30, 0x30,
       0x30, 0x30, 0x30, 0x30, 0x30, 0x31],
     Call.AppID = [0x61], Call.Path = [0x2F, 0x66],
     CreatedAt = \<lparr>Unix = 1520000000, Nanosecond = 0\<rparr>, Payload = []\<rparr>"

definition fidA :: gostring where
  "fidA = [0xCF, 0xCE, 0xBC, 0xC8, 0xB4, 0xB8, 0xA6, 0xAD, 0xCF, 0xCF,
     0xCF, 0xCF, 0xCF, 0xCF, 0xCF, 0xCD]"

definition fidB :: gostring where
  "fidB = [0xCF, 0xCE, 0xBC, 0xC8, 0xB4, 0xB8, 0xA6, 0xAD, 0xCF, 0xCF,
     0xCF, 0xCF, 0xCF, 0xCF, 0xCF, 0xCE]"

definition keyA :: gostring where
  "keyA = [0x63, 0x2F, 0x61, 0x2F] @ fidA"

definition keyB :: gostring where
  "keyB = [0x63, 0x2F, 0x61, 0x2F] @ fidB"

definition markerA :: gostring where
  "markerA = [0x6D, 0x2F, 0x61, 0x2F, 0x4C, 0x32, 0x59, 0x2F] @ fidA"

definition markerB :: gostring where
  "markerB = [0x6D, 0x2F, 0x61, 0x2F, 0x4C, 0x32, 0x59, 0x2F] @ fidB"

definition bodyA :: gostring where
  "bodyA = [16, 0x30, 0x31, 0x43, 0x37, 0x4B, 0x47, 0x59, 0x52, 0x30, 0x30,
       0x30, 0x30, 0x30, 0x30, 0x30, 0x32, 1, 0x61, 2, 0x2F, 0x66,
     0, 0, 0, 0, 0x5A, 0x99, 0x5B, 0xFF, 0, 0, 0, 0, 0x3B, 0x8B, 0x87, 0xC0]"

definition bodyB :: gostring where
  "bodyB = [16, 0x30, 0x31, 0x43, 0x37, 0x4B, 0x47, 0x59, 0x52, 0x30, 0x30,
       0x30, 0x30, 0x30, 0x30, 0x30, 0x31, 1, 0x61, 2, 0x2F, 0x66,
     0, 0, 0, 0, 0x5A, 0x99, 0x5C, 0, 0, 0, 0, 0, 0, 0, 0, 0]"

definition bucketAB :: bucket where
  "bucketAB = snd (InsertCall sample callB (snd (InsertCall sample callA empty_bucket)))"

text \<open>
  The prefix that \<open>fromFilter\<close> lists under, and \<open>fromFilter\<close> with one call to a page.
\<close>

definition pre0 :: gostring where
  "pre0 = [0x63, 0x2F, 0x61, 0x2F] @ fmid0"


text \<open>
  \<open>lateWindow\<close> asks for the calls from \<open>t0\<close> up to one second before \<open>t0\<close>.
  \<open>foreignAB\<close> is the call key of \<open>callA\<close> followed by \<open>/\<close> and a zero byte, a key
  with four fields between the keys of \<open>callA\<close> and \<open>callB\<close>; \<open>bucketAB_foreign\<close> is
  \<open>bucketAB\<close> with an object under it.
\<close>

definition lateWindow :: CallFilter where
  "lateWindow = fromFilter\<lparr>ToTime := \<lparr>Unix = 1519999999, Nanosecond = 0\<rparr>\<rparr>"

definition foreignAB :: gostring where
  "foreignAB = keyA @ [0x2F, 0x00]"

definition bucketAB_foreign :: bucket where
  "bucketAB_foreign = bucketAB\<lparr>objects := (foreignAB, []) # objects bucketAB\<rparr>"

text \<open>
  Modelled from the spec: a second instance of \<open>id.Id\<close>, whose \<open>MarshalDescending\<close> is
  the complement of the 26 characters of the string form, as long as the ids that the
  comments of the source show. \<open>idL0\<close> is the id of the comment in \<open>flipCursor\<close>,
  \<open>01C860Z3M9A7WHJ00000000000\<close>, and \<open>idL1\<close> is the next one,
  \<open>01C860Z3M9A7WHJ00000000001\<close>: two ids of 26 bytes that agree on their first 16.
\<close>

definition sample26 :: extern where
  "sample26 = sample\<lparr>Id_MarshalDescending := (\<lambda>rid. xorCursor (base32_String rid))\<rparr>"

definition idL0 :: gostring where
  "idL0 = [0x30, 0x31, 0x43, 0x38, 0x36, 0x30, 0x5A, 0x33, 0x4D, 0x39, 0x41, 0x37, 0x57, 0x48,
     0x4A, 0x30, 0x30, 0x30, 0x30, 0x30, 0x30, 0x30, 0x30, 0x30, 0x30, 0x30]"

definition idL1 :: gostring where
  "idL1 = [0x30, 0x31, 0x43, 0x38, 0x36, 0x30, 0x5A, 0x33, 0x4D, 0x39, 0x41, 0x37, 0x57, 0x48,
     0x4A, 0x30, 0x30, 0x30, 0x30, 0x30, 0x30, 0x30, 0x30, 0x30, 0x30, 0x31]"

section \<open>Facts about bytes\<close>

lemma xor_ff_not: "(b::byte) XOR 0xFF = NOT b"
proof -
  have ff: "(0xFF::byte) = - 1" by simp
  show ?thesis unfolding ff by simp
qed

lemma unat_not_byte: "unat (NOT (b::byte)) = 255 - unat b"
proof -
  have "NOT b = - 1 - b" by (simp add: not_eq_complement)
  moreover have "b \<le> - 1" by simp
  ultimately have "unat (NOT b) = unat (- 1 :: byte) - unat b"
    by (simp add: unat_sub)
  moreover have "unat (- 1 :: byte) = 255"
    by (simp add: unsigned_minus_1_eq_mask mask_eq_exp_minus_1)
  ultimately show ?thesis by simp
qed

lemma unat_byte_le: "unat (b::byte) \<le> 255"
  using unsigned_less[of b, where 'a = nat] by simp

lemma not_byte_antimono: "(a::byte) < b \<Longrightarrow> NOT b < NOT a"
  using unat_byte_le[of a] unat_byte_le[of b]
  by (simp add: word_less_nat_alt unat_not_byte)



text \<open>A bytewise map that reverses the order of bytes reverses the order of ids of one
  length.\<close>

lemma map_antimono:
  assumes "\<forall>x y. x < y \<longrightarrow> g y < g (x :: byte)"
  shows "length a = length b \<Longrightarrow> a < b \<Longrightarrow> map g b < map g a"
proof (induction a b rule: list_induct2)
  case Nil
  then show ?case by simp
next
  case (Cons x xs y ys)
  then show ?case using assms by auto
qed

lemma xor_ff_antimono: "\<forall>x y. x < y \<longrightarrow> y XOR 0xFF < x XOR (0xFF :: byte)"
  by (simp add: xor_ff_not not_byte_antimono)

text \<open>With a bytewise \<open>MarshalDescending\<close>, \<open>flipCursor\<close> maps the bytes of an id that
  fits into an \<open>id.Id\<close>.\<close>

lemma flipCursor_bytewise:
  assumes "\<forall>rid. Id_MarshalDescending X rid = map g rid" and "length oid \<le> IdSize"
  shows "flipCursor X oid = Some (map g oid)"
  using assms by (simp add: flipCursor_def Let_def take_map)

text \<open>\<open>copy\<close> keeps the first \<open>IdSize\<close> bytes of the id: what follows them has no
  part in the result.\<close>

lemma flipCursor_lossy:
  assumes "length i1 = length i2" and "take IdSize i1 = take IdSize i2"
  shows "flipCursor X i1 = flipCursor X i2"
proof -
  from assms have "i1 = [] \<longleftrightarrow> i2 = []" by auto
  with assms show ?thesis by (simp add: flipCursor_def Let_def)
qed

section \<open>Facts about splitting and keys\<close>

lemma Split_not_Nil: "Split s sep \<noteq> []"
  by (induction s) (auto split: list.splits)

lemma Split_no_sep: "sep \<notin> set s \<Longrightarrow> Split s sep = [s]"
  by (induction s) auto

lemma Split_append_sep: "sep \<notin> set a \<Longrightarrow> Split (a @ sep # r) sep = a # Split r sep"
  by (induction a) auto

lemma length_Split: "length (Split s sep) = Suc (length (filter (\<lambda>c. c = sep) s))"
  by (induction s) (auto split: list.splits simp: Split_not_Nil)

lemma length_Split_prefix: "prefix p k \<Longrightarrow> length (Split p sep) \<le> length (Split k sep)"
  by (auto simp: prefix_def length_Split)

lemma sextet_in_alphabet: "sextet val shift \<in> set encodeURL"
proof -
  have "length encodeURL = 64" by (simp add: encodeURL_def)
  then show ?thesis by (simp add: sextet_def)
qed

lemma EncodeToString_alphabet: "set (EncodeToString src) \<subseteq> set encodeURL"
  by (induction src rule: EncodeToString.induct) (simp_all add: Let_def sextet_in_alphabet)

lemma slash_not_in_alphabet: "slash \<notin> set encodeURL"
  by (simp add: encodeURL_def slash_def)

lemma slash_not_in_EncodeToString: "slash \<notin> set (EncodeToString src)"
  using EncodeToString_alphabet slash_not_in_alphabet by blast

lemma Split_callKeyFlipped:
  "slash \<notin> set app \<Longrightarrow> slash \<notin> set fid \<Longrightarrow>
   Split (callKeyFlipped app fid) slash = [[0x63], app, fid]"
  using Split_append_sep[of slash "[0x63]" "app @ slash # fid"] Split_append_sep[of slash app fid]
  by (simp add: callKeyFlipped_def callKeyPrefix_def Split_no_sep slash_def)

lemma Split_marker:
  "slash \<notin> set app \<Longrightarrow> slash \<notin> set p \<Longrightarrow> slash \<notin> set fid \<Longrightarrow>
   Split (callMarkerPrefix @ app @ slash # p @ slash # fid) slash = [[0x6D], app, p, fid]"
  using Split_append_sep[of slash "[0x6D]" "app @ slash # p @ slash # fid"]
    Split_append_sep[of slash app "p @ slash # fid"] Split_append_sep[of slash p fid]
  by (simp add: callMarkerPrefix_def Split_no_sep slash_def)

lemma callKeyFlipped_fields: "3 \<le> length (Split (callKeyFlipped app fid) slash)"
  by (simp add: callKeyFlipped_def callKeyPrefix_def length_Split)

lemma marker_fields:
  "4 \<le> length (Split (callMarkerPrefix @ app @ [slash] @ p @ [slash] @ fid) slash)"
  by (simp add: callMarkerPrefix_def length_Split)

text \<open>A key under the prefix that GetCalls lists has at least as many fields as expected.\<close>

lemma GetCalls_prefix_fields:
  assumes "GetCalls_prefix X f mid = Some pre" and "prefix pre key"
  shows "(if Path f \<noteq> [] then 4 else 3) \<le> length (Split key slash)"
proof -
  from assms(1) have "(if Path f \<noteq> [] then 4 else 3) \<le> length (Split pre slash)"
    using callKeyFlipped_fields marker_fields
    by (auto simp: GetCalls_prefix_def callKey_def callMarkerKey_def split: option.splits if_splits)
  with length_Split_prefix[OF assms(2), of slash] show ?thesis by simp
qed

lemma decodeKey_invalid:
  assumes "GetCalls_prefix X f mid = Some pre" and "prefix pre key"
    and "length (Split key slash) \<noteq> (if Path f \<noteq> [] then 4 else 3)"
  shows "decodeKey f key = InvalidKey (invalidKey f key)"
  using GetCalls_prefix_fields[OF assms(1,2)] assms(3)
  by (cases "Path f = []") (auto simp: decodeKey_def invalidKey_def Let_def)

section \<open>Facts about the bucket\<close>

lemma no_faults_not_failing: "faults b = [] \<Longrightarrow> \<not> failing b"
  by (simp add: failing_def)

lemma tick_simps:
  "objects (tick b req) = objects b"
  "requests (tick b req) = requests b @ [req]"
  "faults (tick b req) = tl (faults b)"
  by (simp_all add: tick_def)


lemma getCallByKey_found:
  assumes "\<not> failing b" and "map_of (objects b) key = Some body"
    and "json_Unmarshal X body = Some call"
  shows "getCallByKey X key b = (Inr call, tick b (GetObject key))"
  using assms by (simp add: getCallByKey_def Download_def)

lemma getCallByKey_no_fault:
  "faults b = [] \<Longrightarrow> getCallByKey X key b = (fetch X (objects b) key, tick b (GetObject key))"
  by (simp add: getCallByKey_def Download_def fetch_def no_faults_not_failing
      split: option.splits)

lemma map_of_put_object:
  "map_of (put_object key body objs) k = (if k = key then Some body else map_of objs k)"
  by (induction objs) (auto simp: put_object_def)

lemma callKey_not_marker:
  "callKeyFlipped app fid \<noteq> callMarkerPrefix @ app' @ [slash] @ p @ [slash] @ fid'"
  by (simp add: callKeyFlipped_def callKeyPrefix_def callMarkerPrefix_def)

lemma InsertCall_no_fault:
  assumes "faults b = []" and "json_Marshal X call = Some body"
    and "callKey X (Call.AppID call) (ID call) = Some key"
    and "callMarkerKey X (Call.AppID call) (Call.Path call) (ID call) = Some mk"
  shows "InsertCall X call b = (Return None,
     b\<lparr>objects := put_object mk [] (put_object key body (objects b)),
       requests := requests b @ [PutObject key body, PutObject mk []]\<rparr>)"
  using assms by (simp add: InsertCall_def Upload_def failing_def tick_def)







section \<open>Facts about GetCalls\<close>

text \<open>Up to the loop, with the partial id, the prefix and the marker known.\<close>

lemma GetCalls_unfold:
  assumes "AppID f \<noteq> []" and "GetCalls_mid X f = Some mid"
    and "GetCalls_prefix X f mid = Some pre" and "GetCalls_marker X f = Some m"
    and "\<not> failing b"
  shows "GetCalls X f b = GetCalls_loop X f (take (nat (PerPage f)) (listed pre m (objects b))) []
     (tick b (ListObjects pre m (PerPage f)))"
  using assms by (simp add: GetCalls_def List_Objects_def)

text \<open>Keys that decode do not end the loop when there is no \<open>ToTime\<close>.\<close>

lemma loop_no_stop:
  assumes "IsZero (ToTime f)" and "\<forall>k\<in>set ks. \<exists>app fid. decodeKey f k = Decoded app fid"
  shows "\<exists>cs b'. GetCalls_loop X f (ks @ rest) calls b = GetCalls_loop X f rest cs b'"
  using assms(2)
proof (induction ks arbitrary: calls b)
  case Nil
  then show ?case by auto
next
  case (Cons k ks)
  then obtain app fid where d: "decodeKey f k = Decoded app fid" by auto
  from Cons have IH: "\<And>calls b. \<exists>cs b'. GetCalls_loop X f (ks @ rest) calls b
      = GetCalls_loop X f rest cs b'"
    by simp
  show ?case
  proof (cases "getCallByKey X (callKeyFlipped app fid) b")
    case (Pair r b1)
    then show ?thesis using d IH assms(1)
      by (cases r) auto
  qed
qed

text \<open>
  Without faults and without \<open>ToTime\<close> the loop over keys that decode returns, in the
  order of the keys, the calls that the keys show, and leaves the objects alone.
\<close>

lemma loop_no_fault:
  assumes "IsZero (ToTime f)"
  shows "faults b = [] \<Longrightarrow> \<forall>k\<in>set ks. \<exists>app fid. decodeKey f k = Decoded app fid \<Longrightarrow>
    \<exists>b'. GetCalls_loop X f ks calls b
           = (Return (calls @ List.map_filter (visible X f (objects b)) ks, None), b')
         \<and> objects b' = objects b \<and> faults b' = []"
proof (induction ks arbitrary: calls b)
  case Nil
  then show ?case by (simp add: map_filter_simps)
next
  case (Cons k ks)
  from Cons.prems obtain app fid where d: "decodeKey f k = Decoded app fid" by auto
  let ?b1 = "tick b (GetObject (callKeyFlipped app fid))"
  let ?new = "case visible X f (objects b) k of None \<Rightarrow> [] | Some c \<Rightarrow> [c]"
  have step: "GetCalls_loop X f (k # ks) calls b = GetCalls_loop X f ks (calls @ ?new) ?b1"
    using d assms Cons.prems(1)
    by (auto simp: getCallByKey_no_fault visible_def split: sum.splits)
  have "faults ?b1 = []" "objects ?b1 = objects b"
    using Cons.prems(1) by (simp_all add: tick_def)
  with Cons.IH[of ?b1 "calls @ ?new"] Cons.prems(2)
  obtain b' where "GetCalls_loop X f ks (calls @ ?new) ?b1
      = (Return ((calls @ ?new) @ List.map_filter (visible X f (objects b)) ks, None), b')"
    and "objects b' = objects b" and "faults b' = []"
    by auto
  with step show ?case by (auto simp: map_filter_simps split: option.splits)
qed

lemma GetCalls_no_fault:
  assumes "faults b = []" and "AppID f \<noteq> []" and "IsZero (ToTime f)"
    and "GetCalls_mid X f = Some mid" and "GetCalls_prefix X f mid = Some pre"
    and "GetCalls_marker X f = Some m"
    and "page = take (nat (PerPage f)) (listed pre m (objects b))"
    and "\<forall>k\<in>set page. \<exists>app fid. decodeKey f k = Decoded app fid"
  shows "\<exists>b'. GetCalls X f b = (Return (List.map_filter (visible X f (objects b)) page, None), b')
         \<and> objects b' = objects b \<and> faults b' = []"
proof -
  let ?b1 = "tick b (ListObjects pre m (PerPage f))"
  have "GetCalls X f b = GetCalls_loop X f page [] ?b1"
    using assms(1-7) by (simp add: GetCalls_unfold no_faults_not_failing)
  moreover have "faults ?b1 = []" "objects ?b1 = objects b"
    using assms(1) by (simp_all add: tick_def)
  ultimately show ?thesis
    using loop_no_fault[OF assms(3), of ?b1 page X "[]"] assms(8) by simp
qed







section \<open>Facts about paging\<close>


section \<open>Evaluating the sample\<close>

lemma sample_simps:
  "Id_String sample = base32_String"
  "Id_MarshalDescending sample = xorCursor"
  "json_Marshal sample = sample_Marshal"
  "json_Unmarshal sample = sample_Unmarshal"
  by (simp_all add: sample_def)

lemma flipCursor_sample: "length cid \<le> 16 \<Longrightarrow> flipCursor sample cid = Some (xorCursor cid)"
  by (simp add: flipCursor_def sample_simps xorCursor_def IdSize_def Let_def take_map)

lemma callKey_sample:
  "length cid \<le> 16 \<Longrightarrow> callKey sample app cid = Some (callKeyFlipped app (xorCursor cid))"
  by (simp add: callKey_def flipCursor_sample)

lemma callMarkerKey_sample:
  "length cid \<le> 16 \<Longrightarrow> callMarkerKey sample app path cid
     = Some (callMarkerPrefix @ app @ [slash] @ EncodeToString path @ [slash] @ xorCursor cid)"
  by (simp add: callMarkerKey_def flipCursor_sample)

lemma b64_path: "EncodeToString [0x2F, 0x66] = [0x4C, 0x32, 0x59]"
  by (simp add: sextet_def encodeURL_def)

lemma xor_ids:
  "xorCursor (ID call1) = fid1" "xorCursor (ID call2) = fid2" "xorCursor (ID call3) = fid3"
  "xorCursor (ID callA) = fidA" "xorCursor (ID callB) = fidB" "xorCursor mid0 = fmid0"
  by (simp_all add: xorCursor_def call1_def call2_def call3_def callA_def callB_def mid0_def
      fid1_def fid2_def fid3_def fidA_def fidB_def fmid0_def)

lemma id_lengths:
  "length (ID call1) \<le> 16" "length (ID call2) \<le> 16" "length (ID call3) \<le> 16"
  "length (ID callA) \<le> 16" "length (ID callB) \<le> 16" "length mid0 \<le> 16"
  by (simp_all add: call1_def call2_def call3_def callA_def callB_def mid0_def)

lemma call_keys:
  "callKeyFlipped [0x61] fid1 = key1" "callKeyFlipped [0x61] fid2 = key2"
  "callKeyFlipped [0x61] fid3 = key3" "callKeyFlipped [0x61] fidA = keyA"
  "callKeyFlipped [0x61] fidB = keyB" "callKeyFlipped [0x61] fid_gone = gone_key"
  by (simp_all add: callKeyFlipped_def callKeyPrefix_def slash_def fid1_def fid2_def key1_def
      key2_def key3_def keyA_def keyB_def fid_gone_def gone_key_def)

lemma marker_keys:
  "callMarkerPrefix @ [0x61] @ [slash] @ [0x4C, 0x32, 0x59] @ [slash] @ fid1 = marker1"
  "callMarkerPrefix @ [0x61] @ [slash] @ [0x4C, 0x32, 0x59] @ [slash] @ fid2 = marker2"
  "callMarkerPrefix @ [0x61] @ [slash] @ [0x4C, 0x32, 0x59] @ [slash] @ fid3 = marker3"
  "callMarkerPrefix @ [0x61] @ [slash] @ [0x4C, 0x32, 0x59] @ [slash] @ fidA = markerA"
  "callMarkerPrefix @ [0x61] @ [slash] @ [0x4C, 0x32, 0x59] @ [slash] @ fidB = markerB"
  by (simp_all add: callMarkerPrefix_def slash_def fid1_def fid2_def marker1_def marker2_def
      marker3_def markerA_def markerB_def)

lemma call_fields:
  "Call.AppID call1 = [0x61]" "Call.Path call1 = [0x2F, 0x66]"
  "Call.AppID call2 = [0x61]" "Call.Path call2 = [0x2F, 0x66]"
  "Call.AppID call3 = [0x61]" "Call.Path call3 = [0x2F, 0x66]"
  "Call.AppID callA = [0x61]" "Call.Path callA = [0x2F, 0x66]"
  "Call.AppID callB = [0x61]" "Call.Path callB = [0x2F, 0x66]"
  by (simp_all add: call1_def call2_def call3_def callA_def callB_def)

lemma sample_call_keys:
  "callKey sample [0x61] (ID call1) = Some key1" "callKey sample [0x61] (ID call2) = Some key2"
  "callKey sample [0x61] (ID call3) = Some key3" "callKey sample [0x61] (ID callA) = Some keyA"
  "callKey sample [0x61] (ID callB) = Some keyB"
  by (simp_all add: callKey_sample id_lengths xor_ids call_keys)

lemma sample_marker_keys:
  "callMarkerKey sample [0x61] [0x2F, 0x66] (ID call1) = Some marker1"
  "callMarkerKey sample [0x61] [0x2F, 0x66] (ID call2) = Some marker2"
  "callMarkerKey sample [0x61] [0x2F, 0x66] (ID call3) = Some marker3"
  "callMarkerKey sample [0x61] [0x2F, 0x66] (ID callA) = Some markerA"
  "callMarkerKey sample [0x61] [0x2F, 0x66] (ID callB) = Some markerB"
  using marker_keys
  by (simp_all add: callMarkerKey_sample id_lengths xor_ids b64_path del: EncodeToString.simps)

lemma marshal_calls:
  "sample_Marshal call1 = Some body1" "sample_Marshal call2 = Some body2"
  "sample_Marshal call3 = Some body3" "sample_Marshal callA = Some bodyA"
  "sample_Marshal callB = Some bodyB"
  by (simp_all add: sample_Marshal_def put_field_def put_be64_def call1_def call2_def call3_def
      callA_def callB_def body1_def body2_def body3_def bodyA_def bodyB_def)

lemma unmarshal_bodies:
  "sample_Unmarshal body1 = Some call1" "sample_Unmarshal body2 = Some call2"
  "sample_Unmarshal body3 = Some call3" "sample_Unmarshal bodyA = Some callA"
  "sample_Unmarshal bodyB = Some callB"
  by (simp_all add: sample_Unmarshal_def get_field_def get_be64_def call1_def call2_def call3_def
      callA_def callB_def body1_def body2_def body3_def bodyA_def bodyB_def)

lemma keys12_distinct:
  "key1 \<noteq> key2" "key1 \<noteq> marker1" "key1 \<noteq> marker2" "key2 \<noteq> marker1" "key2 \<noteq> marker2"
  "marker1 \<noteq> marker2" "foreign_key \<noteq> key1" "foreign_key \<noteq> key2" "foreign_key \<noteq> marker1"
  "foreign_key \<noteq> marker2" "gone_key \<noteq> key1" "gone_key \<noteq> key2" "gone_key \<noteq> marker1"
  "gone_key \<noteq> marker2"
  by (simp_all add: key1_def key2_def marker1_def marker2_def foreign_key_def gone_key_def)

lemma bucket12_eq:
  "bucket12 = \<lparr>objects = [(marker2, []), (key2, body2), (marker1, []), (key1, body1)],
      requests = [PutObject key1 body1, PutObject marker1 [], PutObject key2 body2,
        PutObject marker2 []], faults = []\<rparr>"
proof -
  have 1: "InsertCall sample call1 empty_bucket = (Return None,
      \<lparr>objects = [(marker1, []), (key1, body1)],
       requests = [PutObject key1 body1, PutObject marker1 []], faults = []\<rparr>)"
    by (subst InsertCall_no_fault[where body = body1 and key = key1 and mk = marker1])
       (simp_all add: sample_simps marshal_calls call_fields sample_call_keys sample_marker_keys
         empty_bucket_def put_object_def keys12_distinct)
  show ?thesis
    unfolding bucket12_def 1 snd_conv
    by (subst InsertCall_no_fault[where body = body2 and key = key2 and mk = marker2])
       (simp_all add: sample_simps marshal_calls call_fields sample_call_keys sample_marker_keys
         put_object_def keys12_distinct keys12_distinct[symmetric])
qed

lemma bucket12_simps:
  "objects bucket12 = [(marker2, []), (key2, body2), (marker1, []), (key1, body1)]"
  "faults bucket12 = []"
  by (simp_all add: bucket12_eq)

lemma bucket_foreign_simps:
  "objects bucket_foreign
     = [(foreign_key, []), (marker2, []), (key2, body2), (marker1, []), (key1, body1)]"
  "faults bucket_foreign = []"
  by (simp_all add: bucket_foreign_def bucket12_simps)

lemma fetch12:
  "fetch sample (objects bucket12) key1 = Inr call1"
  "fetch sample (objects bucket12) key2 = Inr call2"
  "fetch sample (objects bucket12) gone_key = Inl ErrCallNotFound"
  "fetch sample (objects bucket_foreign) key1 = Inr call1"
  "fetch sample (objects bucket_foreign) key2 = Inr call2"
  by (simp_all add: fetch_def bucket12_simps bucket_foreign_simps sample_simps unmarshal_bodies
      keys12_distinct keys12_distinct[symmetric])

lemma filter_fields:
  "AppID appFilter = [0x61]" "Path appFilter = []" "IsZero (FromTime appFilter)"
  "IsZero (ToTime appFilter)" "Cursor appFilter = []" "PerPage appFilter = 10"
  "AppID stopFilter = [0x61]" "Path stopFilter = []" "IsZero (FromTime stopFilter)"
  "\<not> IsZero (ToTime stopFilter)" "Cursor stopFilter = []" "PerPage stopFilter = 10"
  by (simp_all add: appFilter_def stopFilter_def zeroTime_def IsZero_def)

lemma slash_free:
  "slash \<notin> set [0x61]" "slash \<notin> set fid1" "slash \<notin> set fid2" "slash \<notin> set fid3"
  "slash \<notin> set fidA" "slash \<notin> set fidB" "slash \<notin> set fid_gone" "slash \<notin> set fmid0"
  by (simp_all add: slash_def fid1_def fid2_def fid3_def fidA_def fidB_def fid_gone_def fmid0_def)

lemma decodeKey_call_key:
  assumes "Path f = []" and "slash \<notin> set app" and "slash \<notin> set fid"
  shows "decodeKey f (callKeyFlipped app fid) = Decoded app fid"
  using assms by (simp add: decodeKey_def Split_callKeyFlipped)

lemma decode12:
  assumes "Path f = []"
  shows "decodeKey f key1 = Decoded [0x61] fid1" "decodeKey f key2 = Decoded [0x61] fid2"
    "decodeKey f gone_key = Decoded [0x61] fid_gone"
  using decodeKey_call_key[OF assms slash_free(1) slash_free(2)]
    decodeKey_call_key[OF assms slash_free(1) slash_free(3)]
    decodeKey_call_key[OF assms slash_free(1) slash_free(7)]
  by (simp_all add: call_keys)

lemma foreign_fields: "length (Split foreign_key slash) = 4"
  by (simp add: foreign_key_def slash_def)

lemma sample_no_from:
  assumes "IsZero (FromTime f)" and "AppID f = [0x61]" and "Path f = []" and "Cursor f = []"
  shows "GetCalls_mid sample f = Some []"
    and "GetCalls_prefix sample f [] = Some [0x63, 0x2F, 0x61, 0x2F]"
    and "GetCalls_marker sample f = Some []"
  using assms
  by (simp_all add: GetCalls_mid_def GetCalls_prefix_def GetCalls_marker_def callKey_sample
      callKeyFlipped_def callKeyPrefix_def slash_def xorCursor_def)

lemma listed12:
  "listed [0x63, 0x2F, 0x61, 0x2F] [] (objects bucket12) = [key2, key1]"
  "listed [0x63, 0x2F, 0x61, 0x2F] [] (objects bucket_foreign) = [key2, key1, foreign_key]"
  by (simp_all add: bucket12_simps bucket_foreign_simps listed_def key1_def key2_def marker1_def
      marker2_def foreign_key_def)

lemma replicate_10: "replicate 10 x = [x, x, x, x, x, x, x, x, x, x]"
  by (simp add: numeral_eq_Suc)

lemma upt_26:
  "[0..<26] = [0, 1, 2, 3, 4, 5, 6, 7, 8, 9, 10, 11, 12, 13, 14, 15, 16, 17, 18, 19, 20, 21,
     22, 23, 24, 25]"
  by (simp add: upt_rec)

lemma mid_of_t0: "take 10 (base32_String (fromTimeBuf (fromTimeMs t0))) = mid0"
  by (simp add: base32_String_def upt_26 be_nat_def fromTimeBuf_def fromTimeMs_def t0_def
      IdSize_def replicate_10 crockford_def mid0_def)

lemma mid_of_call3:
  "take 10 (base32_String (fromTimeBuf (fromTimeMs (CreatedAt call3)))) = take 10 (ID call3)"
  by (simp add: base32_String_def upt_26 be_nat_def fromTimeBuf_def fromTimeMs_def call3_def
      IdSize_def replicate_10 crockford_def)

lemma length_base32: "length (base32_String rid) = 26"
  by (simp add: base32_String_def)

lemma from_fields:
  "AppID fromFilter = [0x61]" "Path fromFilter = []" "FromTime fromFilter = t0"
  "\<not> IsZero (FromTime fromFilter)" "IsZero (ToTime fromFilter)" "Cursor fromFilter = []"
  "PerPage fromFilter = 10"
  by (simp_all add: fromFilter_def appFilter_def zeroTime_def IsZero_def t0_def)

lemma sample_from:
  assumes "FromTime f = t0" and "AppID f = [0x61]" and "Path f = []" and "Cursor f = []"
  shows "GetCalls_mid sample f = Some mid0"
    and "GetCalls_prefix sample f mid0 = Some pre0"
    and "GetCalls_marker sample f = Some []"
proof -
  have "\<not> IsZero t0" by (simp add: IsZero_def t0_def)
  then show "GetCalls_mid sample f = Some mid0"
    using assms(1) by (simp add: GetCalls_mid_def sample_simps length_base32 mid_of_t0)
  show "GetCalls_prefix sample f mid0 = Some pre0"
    using assms by (simp add: GetCalls_prefix_def callKey_sample id_lengths xor_ids
        callKeyFlipped_def callKeyPrefix_def slash_def pre0_def)
  show "GetCalls_marker sample f = Some []"
    using assms by (simp add: GetCalls_marker_def)
qed

lemma keys3_distinct: "key3 \<noteq> marker3"
  by (simp add: key3_def marker3_def)

lemma bucket3_eq:
  "InsertCall sample call3 empty_bucket = (Return None,
     \<lparr>objects = [(marker3, []), (key3, body3)],
      requests = [PutObject key3 body3, PutObject marker3 []], faults = []\<rparr>)"
  by (subst InsertCall_no_fault[where body = body3 and key = key3 and mk = marker3])
     (simp_all add: sample_simps marshal_calls call_fields sample_call_keys sample_marker_keys
       empty_bucket_def put_object_def keys3_distinct)

lemma bucket3_simps:
  "objects bucket3 = [(marker3, []), (key3, body3)]" "faults bucket3 = []"
  by (simp_all add: bucket3_def bucket3_eq)

lemma listed3:
  "listed [0x63, 0x2F, 0x61, 0x2F] [] (objects bucket3) = [key3]"
  "listed pre0 [] (objects bucket3) = []"
  by (simp_all add: bucket3_simps listed_def key3_def marker3_def fid3_def pre0_def fmid0_def)

lemma visible3: "visible sample appFilter (objects bucket3) key3 = Some call3"
  using decodeKey_call_key[OF filter_fields(2) slash_free(1) slash_free(4)]
  by (simp add: visible_def call_keys fetch_def bucket3_simps keys3_distinct sample_simps
      unmarshal_bodies filter_fields)




lemma keysAB_distinct:
  "keyA \<noteq> keyB" "keyA \<noteq> markerA" "keyA \<noteq> markerB" "keyB \<noteq> markerA" "keyB \<noteq> markerB"
  "markerA \<noteq> markerB"
  by (simp_all add: keyA_def keyB_def markerA_def markerB_def fidA_def fidB_def)

lemma bucketAB_eq:
  "bucketAB = \<lparr>objects = [(markerB, []), (keyB, bodyB), (markerA, []), (keyA, bodyA)],
      requests = [PutObject keyA bodyA, PutObject markerA [], PutObject keyB bodyB,
        PutObject markerB []], faults = []\<rparr>"
proof -
  have 1: "InsertCall sample callA empty_bucket = (Return None,
      \<lparr>objects = [(markerA, []), (keyA, bodyA)],
       requests = [PutObject keyA bodyA, PutObject markerA []], faults = []\<rparr>)"
    by (subst InsertCall_no_fault[where body = bodyA and key = keyA and mk = markerA])
       (simp_all add: sample_simps marshal_calls call_fields sample_call_keys sample_marker_keys
         empty_bucket_def put_object_def keysAB_distinct)
  show ?thesis
    unfolding bucketAB_def 1 snd_conv
    by (subst InsertCall_no_fault[where body = bodyB and key = keyB and mk = markerB])
       (simp_all add: sample_simps marshal_calls call_fields sample_call_keys sample_marker_keys
         put_object_def keysAB_distinct keysAB_distinct[symmetric])
qed

lemma bucketAB_simps:
  "objects bucketAB = [(markerB, []), (keyB, bodyB), (markerA, []), (keyA, bodyA)]"
  "faults bucketAB = []"
  by (simp_all add: bucketAB_eq)



lemma decodeAB:
  assumes "Path f = []"
  shows "decodeKey f keyA = Decoded [0x61] fidA" "decodeKey f keyB = Decoded [0x61] fidB"
  using decodeKey_call_key[OF assms slash_free(1) slash_free(5)]
    decodeKey_call_key[OF assms slash_free(1) slash_free(6)]
  by (simp_all add: call_keys)


lemma path_fields:
  "AppID pathFilter = [0x61]" "Path pathFilter = [0x2F, 0x66]" "IsZero (FromTime pathFilter)"
  "IsZero (ToTime pathFilter)" "Cursor pathFilter = []" "PerPage pathFilter = 10"
  by (simp_all add: pathFilter_def filter_fields)

lemma sample_path:
  "GetCalls_mid sample pathFilter = Some []"
  "GetCalls_prefix sample pathFilter [] = Some marker_pre"
  "GetCalls_marker sample pathFilter = Some []"
  by (simp_all add: GetCalls_mid_def GetCalls_prefix_def GetCalls_marker_def path_fields
      callKey_sample callMarkerKey_sample b64_path xorCursor_def callMarkerPrefix_def slash_def
      marker_pre_def del: EncodeToString.simps)

lemma bucket_gone_simps:
  "objects bucket_gone
     = [(marker_gone, []), (marker2, []), (key2, body2), (marker1, []), (key1, body1)]"
  "faults bucket_gone = []"
  by (simp_all add: bucket_gone_def bucket12_simps)

lemma listed_gone: "listed marker_pre [] (objects bucket_gone) = [marker_gone, marker2, marker1]"
  by (simp add: bucket_gone_simps listed_def key1_def key2_def marker1_def marker2_def
      marker_gone_def marker_pre_def)

lemma decodeKey_marker_key:
  assumes "Path f \<noteq> []" and "slash \<notin> set app" and "slash \<notin> set p" and "slash \<notin> set fid"
  shows "decodeKey f (callMarkerPrefix @ app @ slash # p @ slash # fid) = Decoded app fid"
  using assms by (simp add: decodeKey_def Split_marker)

lemma marker_forms:
  "callMarkerPrefix @ [0x61] @ slash # [0x4C, 0x32, 0x59] @ slash # fid1 = marker1"
  "callMarkerPrefix @ [0x61] @ slash # [0x4C, 0x32, 0x59] @ slash # fid2 = marker2"
  "callMarkerPrefix @ [0x61] @ slash # [0x4C, 0x32, 0x59] @ slash # fid_gone = marker_gone"
  by (simp_all add: callMarkerPrefix_def slash_def fid1_def fid2_def fid_gone_def marker1_def
      marker2_def marker_gone_def)

lemma decode_markers:
  "decodeKey pathFilter marker1 = Decoded [0x61] fid1"
  "decodeKey pathFilter marker2 = Decoded [0x61] fid2"
  "decodeKey pathFilter marker_gone = Decoded [0x61] fid_gone"
proof -
  have p: "Path pathFilter \<noteq> []" by (simp add: path_fields)
  have s: "slash \<notin> set [0x4C, 0x32, 0x59]" by (simp add: slash_def)
  show "decodeKey pathFilter marker1 = Decoded [0x61] fid1"
    using decodeKey_marker_key[OF p slash_free(1) s slash_free(2)] by (simp only: marker_forms)
  show "decodeKey pathFilter marker2 = Decoded [0x61] fid2"
    using decodeKey_marker_key[OF p slash_free(1) s slash_free(3)] by (simp only: marker_forms)
  show "decodeKey pathFilter marker_gone = Decoded [0x61] fid_gone"
    using decodeKey_marker_key[OF p slash_free(1) s slash_free(7)] by (simp only: marker_forms)
qed

lemma gone_distinct: "gone_key \<noteq> marker_gone" "marker_gone \<noteq> key1" "marker_gone \<noteq> key2"
  "marker_gone \<noteq> marker1" "marker_gone \<noteq> marker2"
  by (simp_all add: gone_key_def marker_gone_def key1_def key2_def marker1_def marker2_def)

lemma visible_gone:
  "visible sample pathFilter (objects bucket_gone) marker2 = Some call2"
  "visible sample pathFilter (objects bucket_gone) marker1 = Some call1"
  by (simp_all add: visible_def decode_markers call_keys fetch_def bucket_gone_simps
      keys12_distinct keys12_distinct[symmetric] gone_distinct gone_distinct[symmetric]
      sample_simps unmarshal_bodies path_fields)

lemma late_fields:
  "AppID lateWindow = [0x61]" "Path lateWindow = []" "FromTime lateWindow = t0"
  "\<not> IsZero (FromTime lateWindow)" "\<not> IsZero (ToTime lateWindow)" "Cursor lateWindow = []"
  "PerPage lateWindow = 10"
  by (simp_all add: lateWindow_def from_fields IsZero_def t0_def)

lemma bucketAB_foreign_simps:
  "objects bucketAB_foreign
     = [(foreignAB, []), (markerB, []), (keyB, bodyB), (markerA, []), (keyA, bodyA)]"
  "faults bucketAB_foreign = []"
  by (simp_all add: bucketAB_foreign_def bucketAB_simps)

lemma listedAB_foreign: "listed pre0 [] (objects bucketAB_foreign) = [keyA, foreignAB, keyB]"
  by (simp add: bucketAB_foreign_simps listed_def keyA_def keyB_def markerA_def markerB_def
      fidA_def fidB_def pre0_def fmid0_def foreignAB_def)

lemma foreignAB_distinct: "foreignAB \<noteq> keyA" "foreignAB \<noteq> keyB" "foreignAB \<noteq> markerA"
  "foreignAB \<noteq> markerB"
  by (simp_all add: foreignAB_def keyA_def keyB_def markerA_def markerB_def fidA_def fidB_def)

lemma fetchAB:
  "fetch sample (objects bucketAB) keyA = Inr callA"
  "fetch sample (objects bucketAB_foreign) keyA = Inr callA"
  by (simp_all add: fetch_def bucketAB_simps bucketAB_foreign_simps keysAB_distinct
      keysAB_distinct[symmetric] foreignAB_distinct foreignAB_distinct[symmetric] sample_simps
      unmarshal_bodies)

lemma foreignAB_fields: "length (Split foreignAB slash) = 4"
  by (simp add: foreignAB_def keyA_def fidA_def slash_def)

section \<open>The claims\<close>

subsection \<open>C1: narrowing the listing by FromTime\<close>

text \<open>
  C1 says that narrowing the list prefix by the partial id of \<open>FromTime\<close> only saves
  work: it never keeps a call whose \<open>CreatedAt\<close> is within the time bounds out of the
  listing. GetCalls passes the partial id as part of the \<open>Prefix\<close> of the list
  request, and the object store lists only keys that start with the prefix. The
  evaluation below shows what follows: \<open>call3\<close>, inserted into the empty bucket, is
  created one millisecond after \<open>FromTime\<close> and its id starts with the ten
  characters of its own millisecond; the listing without \<open>FromTime\<close> returns it,
  the listing with \<open>FromTime\<close> returns nothing.
\<close>

theorem GetCalls_fromTime_prefix_excludes:
  "InsertCall sample call3 empty_bucket = (Return None, bucket3)
    \<and> \<not> IsZero (FromTime fromFilter)
    \<and> \<not> Before (CreatedAt call3) (FromTime fromFilter)
    \<and> take 10 (Id_String sample (fromTimeBuf (fromTimeMs (CreatedAt call3)))) = take 10 (ID call3)
    \<and> fst (GetCalls sample appFilter bucket3) = Return ([call3], None)
    \<and> fst (GetCalls sample fromFilter bucket3) = Return ([], None)"
proof -
  have 1: "InsertCall sample call3 empty_bucket = (Return None, bucket3)"
    by (simp add: bucket3_def bucket3_eq)
  have 2: "\<not> Before (CreatedAt call3) (FromTime fromFilter)"
    by (simp add: from_fields Before_def call3_def t0_def)
  have d: "decodeKey appFilter key3 = Decoded [0x61] fid3"
    using decodeKey_call_key[OF filter_fields(2) slash_free(1) slash_free(4)]
    by (simp add: call_keys)
  have "\<exists>b'. GetCalls sample appFilter bucket3
      = (Return (List.map_filter (visible sample appFilter (objects bucket3)) [key3], None), b')
      \<and> objects b' = objects bucket3 \<and> faults b' = []"
    by (rule GetCalls_no_fault[where mid = "[]" and pre = "[0x63, 0x2F, 0x61, 0x2F]" and m = "[]"])
       (simp_all add: bucket3_simps(2) filter_fields sample_no_from listed3 d)
  then have 3: "fst (GetCalls sample appFilter bucket3) = Return ([call3], None)"
    by (auto simp: map_filter_simps visible3)
  have "\<exists>b'. GetCalls sample fromFilter bucket3
      = (Return (List.map_filter (visible sample fromFilter (objects bucket3)) [], None), b')
      \<and> objects b' = objects bucket3 \<and> faults b' = []"
    by (rule GetCalls_no_fault[where mid = mid0 and pre = pre0 and m = "[]"])
       (simp_all add: bucket3_simps(2) from_fields sample_from listed3)
  then have 4: "fst (GetCalls sample fromFilter bucket3) = Return ([], None)"
    by (auto simp: map_filter_simps)
  from 1 2 3 4 show ?thesis
    by (simp add: from_fields(4) sample_simps mid_of_call3)
qed

subsection \<open>C2: decoding a key that was encoded\<close>

text \<open>
  C2, as the code has it: when neither the app nor the encoded id has a \<open>/\<close>, the call
  key of \<open>(app, id)\<close> decodes to the app and the id in its encoded form, the form
  that \<open>callKeyFlipped\<close> takes to build the call key again; the marker key of
  \<open>(app, path, id)\<close> decodes to the same two fields, whatever the path.
\<close>

theorem decodeKey_of_callKey:
  assumes "slash \<notin> set app" and "flipCursor X cid = Some fid" and "slash \<notin> set fid"
    and "Path f0 = []" and "Path f1 \<noteq> []"
  shows "callKey X app cid = Some (callKeyFlipped app fid)
    \<and> decodeKey f0 (callKeyFlipped app fid) = Decoded app fid
    \<and> (\<exists>mk. callMarkerKey X app path cid = Some mk \<and> decodeKey f1 mk = Decoded app fid)"
  using assms
  by (simp add: callKey_def callMarkerKey_def decodeKey_def Split_callKeyFlipped
      Split_marker slash_not_in_EncodeToString Let_def)

text \<open>
  The theorem at \<open>call1\<close> of the app \<open>a\<close> and the path \<open>/f\<close>.
\<close>

theorem decodeKey_of_callKey_witness:
  "slash \<notin> set [0x61] \<and> flipCursor sample (ID call1) = Some fid1 \<and> slash \<notin> set fid1
    \<and> Path appFilter = [] \<and> Path pathFilter \<noteq> []
    \<and> callKey sample [0x61] (ID call1) = Some key1
    \<and> decodeKey appFilter key1 = Decoded [0x61] fid1
    \<and> (\<exists>mk. callMarkerKey sample [0x61] [0x2F, 0x66] (ID call1) = Some mk
          \<and> decodeKey pathFilter mk = Decoded [0x61] fid1)"
proof -
  have h1: "slash \<notin> set [0x61]" by (rule slash_free)
  have h2: "flipCursor sample (ID call1) = Some fid1"
    by (simp add: flipCursor_sample id_lengths xor_ids)
  have h3: "slash \<notin> set fid1" by (rule slash_free)
  have h4: "Path appFilter = []" by (rule filter_fields)
  have h5: "Path pathFilter \<noteq> []" by (simp add: pathFilter_def)
  from decodeKey_of_callKey [OF h1 h2 h3 h4 h5, of "[0x2F, 0x66]"] h1 h2 h3 h4 h5
  show ?thesis by (simp add: call_keys)
qed

text \<open>
  C2 as stated says that decoding gives back the id itself. The call key of \<open>call1\<close>
  decodes to the complemented id, which is not the id \<open>00000001\<close>.
\<close>

theorem decodeKey_of_callKey_counterexample:
  "callKey sample [0x61] (ID call1) = Some key1
    \<and> decodeKey appFilter key1 = Decoded [0x61] fid1
    \<and> decodeKey appFilter key1 \<noteq> Decoded [0x61] (ID call1)"
  by (simp add: sample_call_keys decode12 filter_fields) (simp add: fid1_def call1_def)

subsection \<open>C3 and C10: the descending encoding\<close>



text \<open>
  C10: the bytewise complement is an involution: encoding twice gives the id back.
\<close>

theorem xorCursor_involution: "xorCursor (xorCursor oid) = oid"
  by (simp add: xorCursor_def o_def xor_ff_not)

subsection \<open>C4: a filter without an app\<close>

text \<open>
  C4: for a filter whose \<open>AppID\<close> is empty GetCalls returns the error about listing
  across all apps and no calls, and the bucket is as it was, its list of requests
  included: no request has been issued.
\<close>

theorem GetCalls_rejects_empty_app:
  "AppID f = [] \<Longrightarrow> GetCalls X f b = (Return ([], Some ErrListAcrossApps), b)"
  by (simp add: GetCalls_def)

text \<open>
  The theorem at the sample filter without its app, on \<open>bucket12\<close>.
\<close>

theorem GetCalls_rejects_empty_app_witness:
  "AppID (appFilter\<lparr>AppID := []\<rparr>) = []
    \<and> GetCalls sample (appFilter\<lparr>AppID := []\<rparr>) bucket12
        = (Return ([], Some ErrListAcrossApps), bucket12)"
proof -
  have h: "AppID (appFilter\<lparr>AppID := []\<rparr>) = []" by simp
  from GetCalls_rejects_empty_app [OF h] show ?thesis by simp
qed

subsection \<open>C5: the order of the two writes of InsertCall\<close>



subsection \<open>C6: a key that does not decode\<close>

text \<open>
  C6, as the code has it: when the loop comes to a listed key with the wrong number of
  fields, it returns the calls accumulated so far together with the invalid-key error;
  the key is not skipped. Without \<open>ToTime\<close> nothing ends the loop before: a key with
  the wrong number of fields behind keys that decode makes the loop return that error.
\<close>

theorem GetCalls_loop_invalid_key:
  assumes "GetCalls_prefix X f mid = Some pre" and "prefix pre key"
    and "length (Split key slash) \<noteq> (if Path f \<noteq> [] then 4 else 3)"
  shows "GetCalls_loop X f (key # rest) calls b = (Return (calls, Some (invalidKey f key)), b)
    \<and> (IsZero (ToTime f) \<and> (\<forall>k\<in>set ks. \<exists>app fid. decodeKey f k = Decoded app fid)
        \<longrightarrow> (\<exists>cs b'. GetCalls_loop X f (ks @ key # rest) calls b
              = (Return (cs, Some (invalidKey f key)), b')))"
proof -
  have d: "decodeKey f key = InvalidKey (invalidKey f key)"
    using assms by (rule decodeKey_invalid)
  then have one: "\<And>calls b. GetCalls_loop X f (key # rest) calls b
      = (Return (calls, Some (invalidKey f key)), b)"
    by simp
  show ?thesis
  proof (intro conjI impI)
    show "GetCalls_loop X f (key # rest) calls b = (Return (calls, Some (invalidKey f key)), b)"
      by (rule one)
  next
    assume "IsZero (ToTime f) \<and> (\<forall>k\<in>set ks. \<exists>app fid. decodeKey f k = Decoded app fid)"
    then obtain cs b' where
      "GetCalls_loop X f (ks @ key # rest) calls b = GetCalls_loop X f (key # rest) cs b'"
      using loop_no_stop[of f ks X "key # rest" calls b] by blast
    with one show "\<exists>cs b'. GetCalls_loop X f (ks @ key # rest) calls b
              = (Return (cs, Some (invalidKey f key)), b')"
      by simp
  qed
qed

text \<open>
  The theorem at the key with four fields in \<open>bucket_foreign\<close>, listed behind the
  keys of \<open>call2\<close> and \<open>call1\<close>.
\<close>

theorem GetCalls_loop_invalid_key_witness:
  "GetCalls_prefix sample appFilter [] = Some [0x63, 0x2F, 0x61, 0x2F]
    \<and> prefix [0x63, 0x2F, 0x61, 0x2F] foreign_key
    \<and> length (Split foreign_key slash) \<noteq> (if Path appFilter \<noteq> [] then 4 else 3)
    \<and> IsZero (ToTime appFilter)
    \<and> decodeKey appFilter key2 = Decoded [0x61] fid2
    \<and> decodeKey appFilter key1 = Decoded [0x61] fid1
    \<and> GetCalls_loop sample appFilter [foreign_key] [] bucket_foreign
        = (Return ([], Some (ErrInvalidKeyInCalls foreign_key)), bucket_foreign)
    \<and> (\<exists>cs b'. GetCalls_loop sample appFilter [key2, key1, foreign_key] [] bucket_foreign
        = (Return (cs, Some (ErrInvalidKeyInCalls foreign_key)), b'))"
proof -
  have h1: "GetCalls_prefix sample appFilter [] = Some [0x63, 0x2F, 0x61, 0x2F]"
    by (simp add: sample_no_from filter_fields)
  have h2: "prefix [0x63, 0x2F, 0x61, 0x2F] foreign_key" by (simp add: foreign_key_def)
  have h3: "length (Split foreign_key slash) \<noteq> (if Path appFilter \<noteq> [] then 4 else 3)"
    by (simp add: foreign_fields filter_fields)
  have h4: "IsZero (ToTime appFilter)" by (rule filter_fields)
  have d: "decodeKey appFilter key2 = Decoded [0x61] fid2"
    "decodeKey appFilter key1 = Decoded [0x61] fid1"
    by (simp_all add: decode12 filter_fields)
  then have h5: "\<forall>k\<in>set [key2, key1]. \<exists>app fid. decodeKey appFilter k = Decoded app fid"
    by simp
  have e: "invalidKey appFilter foreign_key = ErrInvalidKeyInCalls foreign_key"
    by (simp add: invalidKey_def filter_fields)
  from GetCalls_loop_invalid_key [OF h1 h2 h3, of "[]" "[]" bucket_foreign "[key2, key1]"]
    h1 h2 h3 h4 h5 d e
  show ?thesis by simp
qed

text \<open>
  C6 as stated says that any listed key that does not decode aborts the listing with
  the error. With \<open>ToTime\<close> at second 150 the list request returns the keys of
  \<open>call2\<close> and \<open>call1\<close> and the key with four fields; \<open>call2\<close>, created at second
  200, ends the loop, and GetCalls returns no calls and no error.
\<close>

theorem GetCalls_invalid_key_counterexample:
  "fst (List_Objects [0x63, 0x2F, 0x61, 0x2F] [] 10 bucket_foreign) = Inr [key2, key1, foreign_key]
    \<and> length (Split foreign_key slash) = 4 \<and> Path stopFilter = []
    \<and> fst (GetCalls sample stopFilter bucket_foreign) = Return ([], None)"
proof -
  have nf: "\<not> failing bucket_foreign"
    by (simp add: no_faults_not_failing bucket_foreign_simps)
  have l: "fst (List_Objects [0x63, 0x2F, 0x61, 0x2F] [] 10 bucket_foreign)
      = Inr [key2, key1, foreign_key]"
    using nf by (simp add: List_Objects_def listed12)
  have "GetCalls sample stopFilter bucket_foreign
      = GetCalls_loop sample stopFilter [key2, key1, foreign_key] []
          (tick bucket_foreign (ListObjects [0x63, 0x2F, 0x61, 0x2F] [] 10))"
    by (subst GetCalls_unfold[where mid = "[]" and pre = "[0x63, 0x2F, 0x61, 0x2F]" and m = "[]"])
       (simp_all add: sample_no_from filter_fields nf listed12)
  moreover have "\<not> Before (CreatedAt call2) (ToTime stopFilter)"
    by (simp add: Before_def call2_def stopFilter_def)
  ultimately have "fst (GetCalls sample stopFilter bucket_foreign) = Return ([], None)"
    by (simp add: decode12 filter_fields getCallByKey_no_fault tick_simps bucket_foreign_simps(2)
        call_keys fetch12)
  with l show ?thesis by (simp add: foreign_fields filter_fields)
qed

subsection \<open>C7: the time bounds in the loop\<close>

text \<open>
  C7, as the code has it: for a call that has been fetched, if \<open>FromTime\<close> is set and
  the call was created before it, the call is skipped and the loop goes on with the
  next key; otherwise, if \<open>ToTime\<close> is set and the call was not created before it, the
  loop ends and the calls accumulated so far are returned without an error.
\<close>

theorem GetCalls_loop_time_bounds:
  assumes "decodeKey f key = Decoded app fid"
    and "getCallByKey X (callKeyFlipped app fid) b = (Inr call, b1)"
  shows "(\<not> IsZero (FromTime f) \<and> Before (CreatedAt call) (FromTime f)
        \<longrightarrow> GetCalls_loop X f (key # rest) calls b = GetCalls_loop X f rest calls b1)
    \<and> (\<not> (\<not> IsZero (FromTime f) \<and> Before (CreatedAt call) (FromTime f))
        \<and> \<not> IsZero (ToTime f) \<and> \<not> Before (CreatedAt call) (ToTime f)
        \<longrightarrow> GetCalls_loop X f (key # rest) calls b = (Return (calls, None), b1))"
  using assms by simp

text \<open>
  The theorem at \<open>call2\<close>, which ends the loop of the filter with \<open>ToTime\<close> at second
  150, and at \<open>callA\<close>, which the filter with \<open>FromTime\<close> at \<open>t0\<close> skips.
\<close>

theorem GetCalls_loop_time_bounds_witness:
  "decodeKey stopFilter key2 = Decoded [0x61] fid2
    \<and> getCallByKey sample (callKeyFlipped [0x61] fid2) bucket12
        = (Inr call2, tick bucket12 (GetObject key2))
    \<and> \<not> (\<not> IsZero (FromTime stopFilter) \<and> Before (CreatedAt call2) (FromTime stopFilter))
    \<and> \<not> IsZero (ToTime stopFilter) \<and> \<not> Before (CreatedAt call2) (ToTime stopFilter)
    \<and> GetCalls_loop sample stopFilter [key2, key1] [] bucket12
        = (Return ([], None), tick bucket12 (GetObject key2))
    \<and> decodeKey fromFilter keyA = Decoded [0x61] fidA
    \<and> getCallByKey sample (callKeyFlipped [0x61] fidA) bucketAB
        = (Inr callA, tick bucketAB (GetObject keyA))
    \<and> \<not> IsZero (FromTime fromFilter) \<and> Before (CreatedAt callA) (FromTime fromFilter)
    \<and> GetCalls_loop sample fromFilter [keyA] [] bucketAB
        = (Return ([], None), tick bucketAB (GetObject keyA))"
proof -
  have h1: "decodeKey stopFilter key2 = Decoded [0x61] fid2"
    by (simp add: decode12 filter_fields)
  have h2: "getCallByKey sample (callKeyFlipped [0x61] fid2) bucket12
        = (Inr call2, tick bucket12 (GetObject key2))"
    by (simp add: getCallByKey_no_fault bucket12_simps(2) call_keys fetch12)
  have h3: "\<not> (\<not> IsZero (FromTime stopFilter) \<and> Before (CreatedAt call2) (FromTime stopFilter))"
    by (simp add: filter_fields)
  have h4: "\<not> IsZero (ToTime stopFilter)" by (rule filter_fields)
  have h5: "\<not> Before (CreatedAt call2) (ToTime stopFilter)"
    by (simp add: Before_def call2_def stopFilter_def)
  have g1: "decodeKey fromFilter keyA = Decoded [0x61] fidA"
    by (simp add: decodeAB from_fields)
  have g2: "getCallByKey sample (callKeyFlipped [0x61] fidA) bucketAB
        = (Inr callA, tick bucketAB (GetObject keyA))"
    by (simp add: getCallByKey_no_fault bucketAB_simps(2) call_keys fetchAB)
  have g3: "\<not> IsZero (FromTime fromFilter)" by (rule from_fields)
  have g4: "Before (CreatedAt callA) (FromTime fromFilter)"
    by (simp add: Before_def callA_def from_fields t0_def)
  from GetCalls_loop_time_bounds [OF h1 h2, of "[key1]" "[]"] h3 h4 h5
  have r1: "GetCalls_loop sample stopFilter [key2, key1] [] bucket12
      = (Return ([], None), tick bucket12 (GetObject key2))"
    by blast
  from GetCalls_loop_time_bounds [OF g1 g2, of "[]" "[]"] g3 g4
  have "GetCalls_loop sample fromFilter [keyA] [] bucketAB
      = GetCalls_loop sample fromFilter [] [] (tick bucketAB (GetObject keyA))"
    by blast
  then have r2: "GetCalls_loop sample fromFilter [keyA] [] bucketAB
      = (Return ([], None), tick bucketAB (GetObject keyA))"
    by simp
  from h1 h2 h3 h4 h5 g1 g2 g3 g4 r1 r2 show ?thesis by blast
qed

text \<open>
  C7 as stated says that a call at or after \<open>ToTime\<close> ends the loop and that the
  accumulated calls are returned. With \<open>FromTime\<close> at \<open>t0\<close> and \<open>ToTime\<close> one second
  before, the list request returns the key of \<open>callA\<close>, the key with four fields and
  the key of \<open>callB\<close>. \<open>callA\<close> is at or after \<open>ToTime\<close>, but it is before \<open>FromTime\<close>
  and is skipped: the loop goes on, comes to the key with four fields, and GetCalls
  returns the invalid-key error.
\<close>

theorem GetCalls_time_bounds_counterexample:
  "fst (List_Objects pre0 [] 10 bucketAB_foreign) = Inr [keyA, foreignAB, keyB]
    \<and> decodeKey lateWindow keyA = Decoded [0x61] fidA
    \<and> fetch sample (objects bucketAB_foreign) (callKeyFlipped [0x61] fidA) = Inr callA
    \<and> \<not> IsZero (ToTime lateWindow)
    \<and> \<not> Before (CreatedAt callA) (ToTime lateWindow)
    \<and> fst (GetCalls sample lateWindow bucketAB_foreign)
        = Return ([], Some (ErrInvalidKeyInCalls foreignAB))
    \<and> fst (GetCalls sample lateWindow bucketAB_foreign) \<noteq> Return ([], None)"
proof -
  have nf: "\<not> failing bucketAB_foreign"
    by (simp add: no_faults_not_failing bucketAB_foreign_simps)
  have l: "fst (List_Objects pre0 [] 10 bucketAB_foreign) = Inr [keyA, foreignAB, keyB]"
    using nf by (simp add: List_Objects_def listedAB_foreign)
  have t: "\<not> Before (CreatedAt callA) (ToTime lateWindow)"
    "Before (CreatedAt callA) t0" "\<not> IsZero t0"
    by (simp_all add: Before_def IsZero_def callA_def lateWindow_def fromFilter_def t0_def)
  have d: "decodeKey lateWindow foreignAB = InvalidKey (ErrInvalidKeyInCalls foreignAB)"
    by (simp add: decodeKey_def foreignAB_fields late_fields)
  have "GetCalls sample lateWindow bucketAB_foreign
      = GetCalls_loop sample lateWindow [keyA, foreignAB, keyB] []
          (tick bucketAB_foreign (ListObjects pre0 [] 10))"
    by (subst GetCalls_unfold[where mid = mid0 and pre = pre0 and m = "[]"])
       (simp_all add: sample_from late_fields nf listedAB_foreign)
  then have "fst (GetCalls sample lateWindow bucketAB_foreign)
        = Return ([], Some (ErrInvalidKeyInCalls foreignAB))"
    by (simp add: decodeAB late_fields getCallByKey_no_fault tick_simps bucketAB_foreign_simps(2)
        call_keys fetchAB t d)
  with l t show ?thesis
    by (simp add: decodeAB late_fields call_keys fetchAB)
qed

subsection \<open>C8: paging\<close>




subsection \<open>C9: a call that is missing when it is fetched\<close>

text \<open>
  C9: when a listed key decodes and the bucket has no object under the call key of the
  decoded fields (and the request itself does not fail), the loop goes on with the rest
  of the keys and the same accumulated calls; the only trace is the request for the
  missing object. No error is returned for it.
\<close>

theorem GetCalls_loop_skips_missing:
  assumes "decodeKey f key = Decoded app fid" and "\<not> failing b"
    and "map_of (objects b) (callKeyFlipped app fid) = None"
  shows "GetCalls_loop X f (key # rest) calls b
     = GetCalls_loop X f rest calls (tick b (GetObject (callKeyFlipped app fid)))"
  using assms by (simp add: getCallByKey_def Download_def)

text \<open>
  The theorem at the listing on the path \<open>/f\<close> of \<open>bucket_gone\<close>, which holds the
  marker of the call \<open>00000003\<close> but not the call: the marker is listed first and
  skipped, and GetCalls returns \<open>call2\<close> and \<open>call1\<close>.
\<close>

theorem GetCalls_loop_skips_missing_witness:
  "decodeKey pathFilter marker_gone = Decoded [0x61] fid_gone
    \<and> \<not> failing (tick bucket_gone (ListObjects marker_pre [] 10))
    \<and> map_of (objects (tick bucket_gone (ListObjects marker_pre [] 10)))
         (callKeyFlipped [0x61] fid_gone) = None
    \<and> fst (List_Objects marker_pre [] 10 bucket_gone) = Inr [marker_gone, marker2, marker1]
    \<and> fst (GetCalls sample pathFilter bucket_gone) = Return ([call2, call1], None)"
proof -
  let ?b1 = "tick bucket_gone (ListObjects marker_pre [] 10)"
  have nf: "\<not> failing bucket_gone" by (simp add: no_faults_not_failing bucket_gone_simps)
  have h1: "decodeKey pathFilter marker_gone = Decoded [0x61] fid_gone" by (rule decode_markers)
  have h2: "\<not> failing ?b1"
    by (simp add: no_faults_not_failing tick_simps bucket_gone_simps)
  have h3: "map_of (objects ?b1) (callKeyFlipped [0x61] fid_gone) = None"
    by (simp add: tick_simps call_keys bucket_gone_simps keys12_distinct gone_distinct)
  have l: "fst (List_Objects marker_pre [] 10 bucket_gone) = Inr [marker_gone, marker2, marker1]"
    using nf by (simp add: List_Objects_def listed_gone)
  have g: "GetCalls sample pathFilter bucket_gone
      = GetCalls_loop sample pathFilter [marker_gone, marker2, marker1] [] ?b1"
    by (subst GetCalls_unfold[where mid = "[]" and pre = marker_pre and m = "[]"])
       (simp_all add: sample_path path_fields nf listed_gone)
  let ?b2 = "tick ?b1 (GetObject (callKeyFlipped [0x61] fid_gone))"
  have "\<exists>b'. GetCalls_loop sample pathFilter [marker2, marker1] [] ?b2
      = (Return ([] @ List.map_filter (visible sample pathFilter (objects ?b2)) [marker2, marker1],
          None), b') \<and> objects b' = objects ?b2 \<and> faults b' = []"
    by (rule loop_no_fault) (simp_all add: path_fields tick_simps bucket_gone_simps decode_markers)
  then have r: "fst (GetCalls_loop sample pathFilter [marker2, marker1] [] ?b2)
      = Return ([call2, call1], None)"
    by (auto simp: map_filter_simps tick_simps visible_gone)
  from GetCalls_loop_skips_missing [OF h1 h2 h3, of sample "[marker2, marker1]" "[]"] g r
  have "fst (GetCalls sample pathFilter bucket_gone) = Return ([call2, call1], None)"
    by simp
  with h1 h2 h3 l show ?thesis by blast
qed

end
